theory Spec2Isabelle
  imports Complex_Main
begin

section \<open>Python values and failures\<close>

text \<open>
  The script computes with Python and numpy floating-point numbers.  They are modelled as
  exact reals: every theorem below is a statement about the arithmetic the script writes
  down, not about its rounding.  A failing operation returns \<open>Inl\<close> of the exception.
  A division whose divisor is zero is the one arithmetic fault of the model
  (\<open>ZeroDivisionError\<close> on Python numbers; on numpy scalars the same division yields an
  infinity or a NaN that no real number represents), so the model stops there.
\<close>

datatype error = ZeroDivisionError | KeyError | IndexError

fun and_then :: "error + 'a \<Rightarrow> ('a \<Rightarrow> error + 'b) \<Rightarrow> error + 'b" where
  "and_then (Inl e) f = Inl e"
| "and_then (Inr x) f = f x"

definition truediv :: "real \<Rightarrow> real \<Rightarrow> error + real" where
  "truediv x y = (if y = 0 then Inl ZeroDivisionError else Inr (x / y))"

text \<open>\<open>x ** n\<close> for a float \<open>x\<close> and an integer \<open>n\<close>.\<close>

definition pow :: "real \<Rightarrow> int \<Rightarrow> error + real" where
  "pow x n =
     (if 0 \<le> n then Inr (x ^ nat n)
      else if x = 0 then Inl ZeroDivisionError
      else Inr (1 / x ^ nat (- n)))"

text \<open>Evaluating a list of computations from left to right; the first failure wins.\<close>

fun traverse :: "('a \<Rightarrow> error + 'b) \<Rightarrow> 'a list \<Rightarrow> error + 'b list" where
  "traverse f [] = Inr []"
| "traverse f (x # xs) =
     and_then (f x) (\<lambda>y. and_then (traverse f xs) (\<lambda>ys. Inr (y # ys)))"

text \<open>A \<open>for\<close> loop over a list of items, threading the loop's variables.\<close>

fun for_each :: "('s \<Rightarrow> 'a \<Rightarrow> error + 's) \<Rightarrow> 'a list \<Rightarrow> 's \<Rightarrow> error + 's" where
  "for_each body [] s = Inr s"
| "for_each body (x # xs) s = and_then (body s x) (for_each body xs)"

text \<open>
  A \<open>dict\<close> is an association list in insertion order; \<open>keys\<close> is the order in which
  \<open>for k in d\<close> visits it.
\<close>

type_synonym 'v dict = "(string \<times> 'v) list"

definition keys :: "'v dict \<Rightarrow> string list" where
  "keys d = map fst d"

definition dict_get :: "'v dict \<Rightarrow> string \<Rightarrow> error + 'v" where
  "dict_get d k = (case map_of d k of None \<Rightarrow> Inl KeyError | Some v \<Rightarrow> Inr v)"

text \<open>\<open>{k: f(k) for k in ks}\<close> and \<open>sum(f(k) for k in ks)\<close>.\<close>

definition dict_comp :: "(string \<Rightarrow> error + 'v) \<Rightarrow> string list \<Rightarrow> error + 'v dict" where
  "dict_comp f ks = traverse (\<lambda>k. and_then (f k) (\<lambda>v. Inr (k, v))) ks"

definition sum_gen :: "(string \<Rightarrow> error + real) \<Rightarrow> string list \<Rightarrow> error + real" where
  "sum_gen f ks = and_then (traverse f ks) (\<lambda>vs. Inr (sum_list vs))"

section \<open>Tables\<close>

text \<open>
  A pandas \<open>DataFrame\<close> of numbers: the row labels and the columns in order, each column
  holding one value per row.  A row (\<open>df.iloc[i]\<close>) is a \<open>Series\<close> keyed by column label.
\<close>

record ('i, 'c) frame =
  index :: "'i list"
  columns :: "'c list dict"

type_synonym 'i dataframe = "('i, real) frame"

type_synonym row = "string \<rightharpoonup> real"

definition len :: "('i, 'c) frame \<Rightarrow> nat" where
  "len df = length (index df)"

definition iloc :: "'i dataframe \<Rightarrow> nat \<Rightarrow> error + row" where
  "iloc df i =
     (if i < len df
      then Inr (\<lambda>b. case map_of (columns df) b of
                      None \<Rightarrow> None
                    | Some c \<Rightarrow> if i < length c then Some (c ! i) else None)
      else Inl IndexError)"

definition row_get :: "row \<Rightarrow> string \<Rightarrow> error + real" where
  "row_get r b = (case r b of None \<Rightarrow> Inl KeyError | Some v \<Rightarrow> Inr v)"

section \<open>Bond pricing\<close>

text \<open>\<open>100 / ((1 + yield_percent / 100) ** duration_years)\<close>\<close>

definition bond_price :: "real \<Rightarrow> int \<Rightarrow> error + real" where
  "bond_price yield_percent duration_years =
     and_then (pow (1 + yield_percent / 100) duration_years) (\<lambda>d. truediv 100 d)"

definition durations :: "int dict" where
  "durations = [(''1Y'', 1), (''5Y'', 5), (''10Y'', 10)]"

text \<open>\<open>df[k] = v\<close>: an existing column is replaced in place, a new one is appended.\<close>

fun setitem :: "'v dict \<Rightarrow> string \<Rightarrow> 'v \<Rightarrow> 'v dict" where
  "setitem [] k v = [(k, v)]"
| "setitem ((k', v') # d) k v = (if k' = k then (k, v) # d else (k', v') # setitem d k v)"

text \<open>
  One iteration of \<open>for col in yields_df.columns\<close>:
  \<open>prices_df[col] = yields_df[col].apply(lambda y: bond_price(y, durations[col]))\<close>.
  The lookup \<open>durations[col]\<close> happens inside the lambda, once per cell.
\<close>

definition price_column ::
  "'i dataframe \<Rightarrow> 'i dataframe \<Rightarrow> string \<Rightarrow> error + 'i dataframe" where
  "price_column yields_df prices col =
     and_then (dict_get (columns yields_df) col) (\<lambda>ys.
     and_then (traverse (\<lambda>y. and_then (dict_get durations col) (\<lambda>d. bond_price y d)) ys) (\<lambda>ps.
     Inr (prices\<lparr>columns := setitem (columns prices) col ps\<rparr>)))"

definition prices_df :: "'i dataframe \<Rightarrow> error + 'i dataframe" where
  "prices_df yields_df =
     for_each (price_column yields_df) (keys (columns yields_df))
       \<lparr>index = index yields_df, columns = []\<rparr>"

text \<open>The pricing contract in the specification's words.\<close>

definition spec_duration :: "string \<Rightarrow> nat" where
  "spec_duration label = (if label = ''1Y'' then 1 else if label = ''5Y'' then 5 else 10)"

definition spec_price :: "real \<Rightarrow> nat \<Rightarrow> real" where
  "spec_price yield_percent duration_years = 100 / (1 + yield_percent / 100) ^ duration_years"

section \<open>The rebalancing simulation\<close>

definition initial_investment :: real where
  "initial_investment = 1000"

text \<open>
  The variables of \<open>simulate_bond_index\<close> that outlive an iteration.  \<open>turnover\<close> and
  \<open>cost\<close> are unbound before the first iteration and read nowhere before they are
  assigned; the initial state gives them 0.  In the body below \<open>held\<close> is \<open>holdings\<close>
  after the \<open>if not holdings\<close>, \<open>v\<close> the revalued \<open>value\<close>, \<open>t\<close> the turnover, \<open>c\<close> the
  cost and \<open>v'\<close> the value after \<open>value -= cost\<close>.
\<close>

record sim_state =
  value' :: real
  portfolio_values :: "real list"
  holdings :: "real dict"
  turnover :: real
  cost :: real

definition loop_body ::
  "'i dataframe \<Rightarrow> real dict \<Rightarrow> real \<Rightarrow> sim_state \<Rightarrow> nat \<Rightarrow> error + sim_state" where
  "loop_body prices weights transaction_cost s i =
     and_then (iloc prices (i - 1)) (\<lambda>prev.
     and_then (iloc prices i) (\<lambda>curr.
     and_then
       (if holdings s = []
        then dict_comp (\<lambda>bond.
               and_then (dict_get weights bond) (\<lambda>w.
               and_then (row_get prev bond) (\<lambda>p.
               truediv (value' s * w) p))) (keys weights)
        else Inr (holdings s)) (\<lambda>held.
     and_then (sum_gen (\<lambda>bond.
               and_then (dict_get held bond) (\<lambda>u.
               and_then (row_get curr bond) (\<lambda>p.
               Inr (u * p)))) (keys held)) (\<lambda>v.
     and_then (dict_comp (\<lambda>bond.
               and_then (dict_get weights bond) (\<lambda>w.
               Inr (v * w))) (keys weights)) (\<lambda>desired_value.
     and_then (dict_comp (\<lambda>bond.
               and_then (dict_get desired_value bond) (\<lambda>dv.
               and_then (row_get curr bond) (\<lambda>p.
               truediv dv p))) (keys weights)) (\<lambda>new_holdings.
     and_then (sum_gen (\<lambda>bond.
               and_then (dict_get new_holdings bond) (\<lambda>n.
               and_then (dict_get held bond) (\<lambda>u.
               and_then (row_get curr bond) (\<lambda>p.
               Inr (\<bar>n - u\<bar> * p))))) (keys weights)) (\<lambda>t.
     let c = t * transaction_cost;
         v' = v - c
     in Inr \<lparr>value' = v',
             portfolio_values = portfolio_values s @ [v'],
             holdings = new_holdings,
             turnover = t,
             cost = c\<rparr>)))))))"

definition initial_state :: sim_state where
  "initial_state =
     \<lparr>value' = initial_investment, portfolio_values = [], holdings = [],
      turnover = 0, cost = 0\<rparr>"

text \<open>The state after the iterations \<open>i = 1, ..., k\<close> of the loop.\<close>

definition state_after ::
  "'i dataframe \<Rightarrow> real dict \<Rightarrow> real \<Rightarrow> nat \<Rightarrow> error + sim_state" where
  "state_after prices weights transaction_cost k =
     for_each (loop_body prices weights transaction_cost) [1..<Suc k] initial_state"

definition simulate_bond_index ::
  "'i dataframe \<Rightarrow> real dict \<Rightarrow> real \<Rightarrow> error + real list" where
  "simulate_bond_index prices weights transaction_cost =
     and_then
       (for_each (loop_body prices weights transaction_cost) [1..<len prices] initial_state)
       (\<lambda>s. Inr (portfolio_values s))"


definition weights_adjusted :: "real dict" where
  "weights_adjusted = [(''1Y'', 5 / 10), (''5Y'', 3 / 10), (''10Y'', 2 / 10)]"

subsection \<open>The contract of the simulation\<close>

text \<open>
  \<open>price_i[b]\<close>, \<open>weight[b]\<close> and \<open>units[b]\<close> as total functions, for stating the contract
  where the lookups succeed.
\<close>

definition price_at :: "'i dataframe \<Rightarrow> nat \<Rightarrow> string \<Rightarrow> real" where
  "price_at prices i b = (case map_of (columns prices) b of None \<Rightarrow> 0 | Some c \<Rightarrow> c ! i)"

definition weight_of :: "real dict \<Rightarrow> string \<Rightarrow> real" where
  "weight_of weights b = (case map_of weights b of None \<Rightarrow> 0 | Some w \<Rightarrow> w)"



text \<open>
  The simulation contract in the specification's words: the units held after row \<open>i\<close>
  (row 0: the initial purchase; a later row: the desired units of that row, which replace
  the units), the value at row \<open>i\<close> of the units held before it, the desired units, the
  turnover, the cost and the reported value.
\<close>

fun spec_units :: "'i dataframe \<Rightarrow> real dict \<Rightarrow> nat \<Rightarrow> string \<Rightarrow> real" where
  "spec_units prices weights 0 b =
     (initial_investment * weight_of weights b) / price_at prices 0 b"
| "spec_units prices weights (Suc i) b =
     ((\<Sum>c\<leftarrow>keys weights. spec_units prices weights i c * price_at prices (Suc i) c)
        * weight_of weights b) / price_at prices (Suc i) b"

definition spec_value :: "'i dataframe \<Rightarrow> real dict \<Rightarrow> nat \<Rightarrow> real" where
  "spec_value prices weights i =
     (\<Sum>b\<leftarrow>keys weights. spec_units prices weights (i - 1) b * price_at prices i b)"

definition spec_desired :: "'i dataframe \<Rightarrow> real dict \<Rightarrow> nat \<Rightarrow> string \<Rightarrow> real" where
  "spec_desired prices weights i b =
     (spec_value prices weights i * weight_of weights b) / price_at prices i b"

definition spec_turnover :: "'i dataframe \<Rightarrow> real dict \<Rightarrow> nat \<Rightarrow> real" where
  "spec_turnover prices weights i =
     (\<Sum>b\<leftarrow>keys weights.
        \<bar>spec_desired prices weights i b - spec_units prices weights (i - 1) b\<bar>
          * price_at prices i b)"

definition spec_cost :: "'i dataframe \<Rightarrow> real dict \<Rightarrow> real \<Rightarrow> nat \<Rightarrow> real" where
  "spec_cost prices weights rate i = rate * spec_turnover prices weights i"

definition spec_reported :: "'i dataframe \<Rightarrow> real dict \<Rightarrow> real \<Rightarrow> nat \<Rightarrow> real" where
  "spec_reported prices weights rate i =
     spec_value prices weights i - spec_cost prices weights rate i"


text \<open>
  The tables the contract speaks of: row \<open>i\<close> exists and has a cell for every maturity of
  the weight mapping (\<open>row_defined\<close>), none of these prices is zero (\<open>row_priced\<close>); every
  row is so (\<open>has_columns\<close>, \<open>priced\<close>).
\<close>

definition row_defined :: "'i dataframe \<Rightarrow> real dict \<Rightarrow> nat \<Rightarrow> bool" where
  "row_defined prices weights i =
     (i < len prices \<and>
      list_all (\<lambda>b. case map_of (columns prices) b of None \<Rightarrow> False | Some c \<Rightarrow> i < length c)
        (keys weights))"

definition row_priced :: "'i dataframe \<Rightarrow> real dict \<Rightarrow> nat \<Rightarrow> bool" where
  "row_priced prices weights i =
     (row_defined prices weights i \<and> list_all (\<lambda>b. price_at prices i b \<noteq> 0) (keys weights))"

definition priced :: "'i dataframe \<Rightarrow> real dict \<Rightarrow> bool" where
  "priced prices weights = list_all (row_priced prices weights) [0..<len prices]"


text \<open>
  The variables of the loop after iteration \<open>k\<close>, as the contract predicts them.
\<close>

definition spec_state :: "'i dataframe \<Rightarrow> real dict \<Rightarrow> real \<Rightarrow> nat \<Rightarrow> sim_state" where
  "spec_state prices weights rate k =
     (if k = 0 then initial_state
      else \<lparr>value' = spec_reported prices weights rate k,
            portfolio_values = map (spec_reported prices weights rate) [1..<Suc k],
            holdings = map (\<lambda>b. (b, spec_units prices weights k b)) (keys weights),
            turnover = spec_turnover prices weights k,
            cost = spec_cost prices weights rate k\<rparr>)"

text \<open>The holdings the body works with once its \<open>if not holdings\<close> has run.\<close>

definition held_as :: "'i dataframe \<Rightarrow> real dict \<Rightarrow> sim_state \<Rightarrow> nat \<Rightarrow> (string \<Rightarrow> real) \<Rightarrow> bool" where
  "held_as prices weights s i u =
     ((holdings s = [] \<and> row_priced prices weights (i - 1) \<and>
         (\<forall>b \<in> set (keys weights).
            u b = (value' s * weight_of weights b) / price_at prices (i - 1) b))
      \<or> holdings s = map (\<lambda>b. (b, u b)) (keys weights))"

section \<open>The benchmark index\<close>

text \<open>
  A pandas \<open>Series\<close> of observations: labelled cells in order, \<open>None\<close> for a missing
  value (NaN).
\<close>

type_synonym 'i series = "('i \<times> real option) list"

text \<open>
  \<open>s.pct_change()\<close>: each cell against the one before it, \<open>cur / prev - 1\<close>; the first
  cell, and any cell where either value is missing, is missing.  Missing values are not
  filled first (older pandas releases forward-fill; on a series without missing values
  both agree).  A previous value of zero is the division fault of the model.
\<close>

fun pct_from :: "real option \<Rightarrow> 'i series \<Rightarrow> error + 'i series" where
  "pct_from prev [] = Inr []"
| "pct_from prev ((l, cur) # s) =
     and_then
       (case (prev, cur) of
          (Some p, Some c) \<Rightarrow> and_then (truediv c p) (\<lambda>q. Inr (Some (q - 1)))
        | _ \<Rightarrow> Inr None) (\<lambda>r.
     and_then (pct_from cur s) (\<lambda>rest. Inr ((l, r) # rest)))"

definition pct_change :: "'i series \<Rightarrow> error + 'i series" where
  "pct_change s = pct_from None s"

definition dropna :: "'i series \<Rightarrow> 'i series" where
  "dropna s = filter (\<lambda>(l, v). v \<noteq> None) s"

text \<open>\<open>c + s\<close> and \<open>s * c\<close> for a number \<open>c\<close>.\<close>

definition radd :: "real \<Rightarrow> 'i series \<Rightarrow> 'i series" where
  "radd c s = map (\<lambda>(l, v). (l, map_option (\<lambda>x. c + x) v)) s"

definition mul :: "'i series \<Rightarrow> real \<Rightarrow> 'i series" where
  "mul s c = map (\<lambda>(l, v). (l, map_option (\<lambda>x. x * c) v)) s"

text \<open>\<open>s.cumprod()\<close>: the running product; a missing cell stays missing and is skipped.\<close>

fun cumprod_from :: "real \<Rightarrow> 'i series \<Rightarrow> 'i series" where
  "cumprod_from acc [] = []"
| "cumprod_from acc ((l, None) # s) = (l, None) # cumprod_from acc s"
| "cumprod_from acc ((l, Some x) # s) = (l, Some (acc * x)) # cumprod_from (acc * x) s"

definition cumprod :: "'i series \<Rightarrow> 'i series" where
  "cumprod s = cumprod_from 1 s"

text \<open>
  \<open>s.loc[labels]\<close> for a list of labels: the cells carrying each label, in the order of
  the labels; a label the series does not have raises \<open>KeyError\<close>.
\<close>

definition loc_label :: "'i series \<Rightarrow> 'i \<Rightarrow> error + 'i series" where
  "loc_label s l =
     (case filter (\<lambda>c. fst c = l) s of [] \<Rightarrow> Inl KeyError | c # cs \<Rightarrow> Inr (c # cs))"

definition loc :: "'i series \<Rightarrow> 'i list \<Rightarrow> error + 'i series" where
  "loc s labels = and_then (traverse (loc_label s) labels) (\<lambda>parts. Inr (concat parts))"

text \<open>
  \<open>sp500_returns = sp500.pct_change().dropna()\<close>,
  \<open>sp500_index = (1 + sp500_returns).cumprod() * initial_investment\<close>,
  \<open>sp500_index = sp500_index.loc[prices_df.index[1:]]\<close>.
\<close>

definition sp500_returns :: "'i series \<Rightarrow> error + 'i series" where
  "sp500_returns sp500 = and_then (pct_change sp500) (\<lambda>changes. Inr (dropna changes))"

definition sp500_index :: "'i series \<Rightarrow> 'i dataframe \<Rightarrow> error + 'i series" where
  "sp500_index sp500 prices =
     and_then (sp500_returns sp500) (\<lambda>returns.
     loc (mul (cumprod (radd 1 returns)) initial_investment) (drop 1 (index prices)))"

text \<open>The benchmark contract in the specification's words.\<close>

definition spec_return :: "real list \<Rightarrow> nat \<Rightarrow> real" where
  "spec_return ps j = ps ! j / ps ! (j - 1) - 1"

definition spec_benchmark :: "real list \<Rightarrow> nat \<Rightarrow> real" where
  "spec_benchmark ps k =
     initial_investment * (\<Prod>j\<leftarrow>[1..<Suc k]. 1 + spec_return ps j)"

text \<open>
  The period returns of a list of prices after a first price \<open>p\<close>, and the running
  products of a list from a start value: the list forms of the two series operations.
\<close>

fun rets :: "real \<Rightarrow> real list \<Rightarrow> real list" where
  "rets p [] = []"
| "rets p (c # cs) = (c / p - 1) # rets c cs"

fun scan :: "real \<Rightarrow> real list \<Rightarrow> real list" where
  "scan acc [] = []"
| "scan acc (x # xs) = (acc * x) # scan (acc * x) xs"

section \<open>Resampling to months and alignment\<close>

text \<open>
  An observation date is the ordinal of its calendar month and the day in that month.  The
  raw tables carry missing values, so their cells are \<open>real option\<close>.
\<close>

type_synonym date = "nat \<times> nat"

definition month_of :: "date \<Rightarrow> nat" where
  "month_of d = fst d"

text \<open>
  \<open>resample('M')\<close> makes one bin for every calendar month from the earliest to the latest
  date of the index, also for the months in between that have no row.
\<close>

definition month_bins :: "date list \<Rightarrow> nat list" where
  "month_bins ds =
     (if ds = [] then []
      else [Min (set (map month_of ds))..<Suc (Max (set (map month_of ds)))])"

text \<open>The cells of a column whose row is dated in month \<open>m\<close>, in row order.\<close>

definition in_month :: "date list \<Rightarrow> 'c list \<Rightarrow> nat \<Rightarrow> 'c list" where
  "in_month ds vs m = map snd (filter (\<lambda>c. month_of (fst c) = m) (zip ds vs))"

fun valid :: "real option list \<Rightarrow> real list" where
  "valid [] = []"
| "valid (None # vs) = valid vs"
| "valid (Some x # vs) = x # valid vs"

text \<open>
  \<open>.mean()\<close> and \<open>.last()\<close> of a bin skip missing values; a bin without any value gives a
  missing value.
\<close>

definition mean :: "real option list \<Rightarrow> real option" where
  "mean vs = (if valid vs = [] then None
              else Some (sum_list (valid vs) / real (length (valid vs))))"

definition last_valid :: "real option list \<Rightarrow> real option" where
  "last_valid vs = (if valid vs = [] then None else Some (last (valid vs)))"

definition resample_mean :: "(date, real option) frame \<Rightarrow> (nat, real option) frame" where
  "resample_mean df =
     \<lparr>index = month_bins (index df),
      columns = map (\<lambda>cv. (fst cv, map (\<lambda>m. mean (in_month (index df) (snd cv) m))
                                       (month_bins (index df))))
                  (columns df)\<rparr>"

text \<open>\<open>df.dropna()\<close> keeps the rows in which no column has a missing value.\<close>

definition dropna_rows :: "('i, real option) frame \<Rightarrow> ('i, real option) frame" where
  "dropna_rows df =
     (let keep = filter (\<lambda>i. list_all (\<lambda>cv. snd cv ! i \<noteq> None) (columns df)) [0..<len df]
      in \<lparr>index = map (\<lambda>i. index df ! i) keep,
          columns = map (\<lambda>cv. (fst cv, map (\<lambda>i. snd cv ! i) keep)) (columns df)\<rparr>)"

definition resample_last :: "date series \<Rightarrow> nat series" where
  "resample_last s =
     map (\<lambda>m. (m, last_valid (in_month (map fst s) (map snd s) m))) (month_bins (map fst s))"

text \<open>
  \<open>yields_df = yields_df.resample('M').mean().dropna()\<close>,
  \<open>sp500 = sp500.resample('M').last()\<close>, \<open>sp500 = sp500.loc[yields_df.index]\<close>.
\<close>

definition resampled_yields :: "(date, real option) frame \<Rightarrow> (nat, real option) frame" where
  "resampled_yields yields_df = dropna_rows (resample_mean yields_df)"

definition aligned_sp500 ::
  "date series \<Rightarrow> (date, real option) frame \<Rightarrow> error + nat series" where
  "aligned_sp500 sp500 yields_df =
     loc (resample_last sp500) (index (resampled_yields yields_df))"

text \<open>The specification's "the series has at least one observation in month \<open>m\<close>".\<close>

definition spec_observed :: "date list \<Rightarrow> real option list \<Rightarrow> nat \<Rightarrow> bool" where
  "spec_observed ds vs m =
     (\<exists>i < length ds. i < length vs \<and> month_of (ds ! i) = m \<and> vs ! i \<noteq> None)"

definition spec_common_months :: "(date, real option) frame \<Rightarrow> nat set" where
  "spec_common_months yields_df =
     {m. \<forall>cv \<in> set (columns yields_df). spec_observed (index yields_df) (snd cv) m}"

text \<open>
  The months that survive \<open>dropna\<close>, in order: the bins in which every series is observed.
\<close>

definition kept_months :: "(date, real option) frame \<Rightarrow> nat list" where
  "kept_months yields_df =
     filter (\<lambda>m. \<forall>cv \<in> set (columns yields_df). spec_observed (index yields_df) (snd cv) m)
       (month_bins (index yields_df))"

section \<open>Example inputs\<close>

text \<open>
  The specification's example: three maturities, two months, weights 0.5, 0.3, 0.2.
\<close>

definition two_month_prices :: "nat dataframe" where
  "two_month_prices =
     \<lparr>index = [0, 1],
      columns = [(''A'', [100, 110]), (''B'', [100, 105]), (''C'', [100, 95])]\<rparr>"

definition half_third_fifth :: "real dict" where
  "half_third_fifth = [(''A'', 5 / 10), (''B'', 3 / 10), (''C'', 2 / 10)]"









text \<open>
  Two yield series observed in different months, a benchmark observed daily over the
  same three months, and one whose observations start in the last of them.
\<close>

definition misaligned_yields :: "(date, real option) frame" where
  "misaligned_yields =
     \<lparr>index = [(0, 1), (1, 1), (2, 1)],
      columns = [(''1Y'', [Some 1, None, Some 3]), (''5Y'', [Some 2, Some 2, Some 2])]\<rparr>"

definition daily_sp500 :: "date series" where
  "daily_sp500 =
     [((0, 5), Some 100), ((0, 20), Some 101), ((1, 3), Some 102), ((2, 9), Some 103)]"

definition late_sp500 :: "date series" where
  "late_sp500 = [((2, 9), Some 103)]"

section \<open>Sequencing and lookup lemmas\<close>

text \<open>
  Facts for evaluating the definitions on the example inputs.
\<close>

lemma upt_1_2: "[1..<2] = [1]" "[0..<2] = [0, 1]" "[0..<3] = [0, 1, 2]"
  by (simp_all add: upt_rec)

lemma upt_1_3: "[Suc 0..<3] = [1, 2]"
  by (simp add: upt_rec)


lemma traverse_all:
  "(\<And>x. x \<in> set xs \<Longrightarrow> f x = Inr (g x)) \<Longrightarrow> traverse f xs = Inr (map g xs)"
  by (induction xs) simp_all

lemma traverse_fails:
  assumes "x \<in> set xs" and "f x = Inl e"
    and "\<And>y. y \<in> set xs \<Longrightarrow> f y = Inl e \<or> (\<exists>z. f y = Inr z)"
  shows "traverse f xs = Inl e"
  using assms
proof (induction xs)
  case Nil
  then show ?case by simp
next
  case (Cons a xs)
  show ?case
  proof (cases "f a")
    case (Inl e')
    then show ?thesis using Cons.prems(3) [of a] by simp
  next
    case (Inr z)
    then have "x \<in> set xs" using Cons.prems(1,2) by auto
    then have "traverse f xs = Inl e"
      using Cons.prems(2,3) by (intro Cons.IH) simp_all
    then show ?thesis using Inr by simp
  qed
qed

lemma dict_comp_all:
  "(\<And>k. k \<in> set ks \<Longrightarrow> f k = Inr (g k)) \<Longrightarrow> dict_comp f ks = Inr (map (\<lambda>k. (k, g k)) ks)"
  unfolding dict_comp_def by (rule traverse_all) simp


lemma sum_gen_all:
  "(\<And>k. k \<in> set ks \<Longrightarrow> f k = Inr (g k)) \<Longrightarrow> sum_gen f ks = Inr (\<Sum>k\<leftarrow>ks. g k)"
  unfolding sum_gen_def by (simp add: traverse_all)

lemma for_each_append:
  "for_each body (xs @ ys) s = and_then (for_each body xs s) (for_each body ys)"
proof (induction xs arbitrary: s)
  case Nil
  show ?case by simp
next
  case (Cons y ys)
  show ?case by (cases "body s y") (simp_all add: Cons.IH)
qed

lemma for_each_single: "for_each body [x] = (\<lambda>s. body s x)"
proof
  fix s show "for_each body [x] s = body s x" by (cases "body s x") simp_all
qed


lemma dict_get_tabulate:
  "k \<in> set ks \<Longrightarrow> dict_get (map (\<lambda>k. (k, g k)) ks) k = Inr (g k)"
  by (induction ks) (auto simp: dict_get_def)

lemma keys_tabulate: "keys (map (\<lambda>k. (k, g k)) ks) = ks"
  by (simp add: keys_def comp_def)


section \<open>Properties of the pricing stage\<close>

lemma setitem_fresh: "k \<notin> set (keys d) \<Longrightarrow> setitem d k v = d @ [(k, v)]"
  by (induction d) (auto simp: keys_def)

lemma bond_price_defined:
  "1 + y / 100 \<noteq> 0 \<Longrightarrow> 0 \<le> d \<Longrightarrow> bond_price y d = Inr (spec_price y (nat d))"
  by (simp add: bond_price_def pow_def truediv_def spec_price_def)



lemma durations_spec:
  "l \<in> {''1Y'', ''5Y'', ''10Y''} \<Longrightarrow> dict_get durations l = Inr (int (spec_duration l))"
  by (auto simp: durations_def dict_get_def spec_duration_def)

lemma price_column_ok:
  assumes "map_of (columns ydf) col = Some ys"
    and "col \<in> {''1Y'', ''5Y'', ''10Y''}"
    and "\<forall>y \<in> set ys. 1 + y / 100 \<noteq> 0"
    and "col \<notin> set (keys (columns acc))"
  shows "price_column ydf acc col =
     Inr (acc\<lparr>columns := columns acc @ [(col, map (\<lambda>y. spec_price y (spec_duration col)) ys)]\<rparr>)"
proof -
  have "traverse (\<lambda>y. and_then (dict_get durations col) (\<lambda>d. bond_price y d)) ys
        = Inr (map (\<lambda>y. spec_price y (spec_duration col)) ys)"
    using assms(2,3) by (intro traverse_all) (simp add: durations_spec bond_price_defined)
  then show ?thesis
    using assms(1,4) by (simp add: price_column_def dict_get_def setitem_fresh)
qed

lemma price_loop:
  assumes "distinct (keys cs)"
    and "\<And>col ys. (col, ys) \<in> set cs \<Longrightarrow> map_of (columns ydf) col = Some ys"
    and "set (keys cs) \<subseteq> {''1Y'', ''5Y'', ''10Y''}"
    and "\<forall>(col, ys) \<in> set cs. \<forall>y \<in> set ys. 1 + y / 100 \<noteq> 0"
    and "set (keys (columns acc)) \<inter> set (keys cs) = {}"
  shows "for_each (price_column ydf) (keys cs) acc =
     Inr (acc\<lparr>columns := columns acc @
            map (\<lambda>(col, ys). (col, map (\<lambda>y. spec_price y (spec_duration col)) ys)) cs\<rparr>)"
  using assms
proof (induction cs arbitrary: acc)
  case Nil
  then show ?case by (simp add: keys_def)
next
  case (Cons c cs)
  obtain col ys where c: "c = (col, ys)" by (cases c)
  let ?acc = "acc\<lparr>columns := columns acc @ [(col, map (\<lambda>y. spec_price y (spec_duration col)) ys)]\<rparr>"
  have step: "price_column ydf acc col = Inr ?acc"
    using Cons.prems c by (intro price_column_ok) (auto simp: keys_def)
  have rest: "for_each (price_column ydf) (keys cs) ?acc =
     Inr (?acc\<lparr>columns := columns ?acc @
            map (\<lambda>(col, ys). (col, map (\<lambda>y. spec_price y (spec_duration col)) ys)) cs\<rparr>)"
    using Cons.prems c by (intro Cons.IH) (auto simp: keys_def)
  show ?case using step rest c by (simp add: keys_def)
qed

lemma prices_df_spec:
  assumes "distinct (keys (columns yields_df))"
    and "set (keys (columns yields_df)) \<subseteq> {''1Y'', ''5Y'', ''10Y''}"
    and "\<forall>(col, ys) \<in> set (columns yields_df). \<forall>y \<in> set ys. 1 + y / 100 \<noteq> 0"
  shows "prices_df yields_df =
           Inr \<lparr>index = index yields_df,
                columns = map (\<lambda>(col, ys). (col, map (\<lambda>y. spec_price y (spec_duration col)) ys))
                            (columns yields_df)\<rparr>"
proof -
  let ?start = "\<lparr>index = index yields_df, columns = []\<rparr>"
  have "map_of (columns yields_df) col = Some ys"
    if "(col, ys) \<in> set (columns yields_df)" for col ys
    using that assms(1) by (simp add: keys_def)
  then have "for_each (price_column yields_df) (keys (columns yields_df)) ?start =
        Inr (?start\<lparr>columns := columns ?start @
            map (\<lambda>(col, ys). (col, map (\<lambda>y. spec_price y (spec_duration col)) ys))
              (columns yields_df)\<rparr>)"
    using assms by (intro price_loop) (auto simp: keys_def)
  then show ?thesis by (simp add: prices_df_def)
qed


text \<open>
  C3.  Where \<open>1 + yield_percent/100\<close> is not zero and the duration is 1, 5 or 10,
  \<open>bond_price\<close> returns \<open>100 / (1 + yield_percent/100) ^ duration\<close>; and on a yield table
  whose columns are distinct labels among 1Y, 5Y, 10Y and whose yields all keep
  \<open>1 + y/100\<close> away from zero, the price table has the same index and the same columns,
  every cell being that formula applied to the yield cell with the duration 1, 5 or 10
  bound to its column label.
\<close>

theorem bond_price_table:
  assumes "distinct (keys (columns yields_df))"
    and "set (keys (columns yields_df)) \<subseteq> {''1Y'', ''5Y'', ''10Y''}"
    and "\<forall>(col, ys) \<in> set (columns yields_df). \<forall>y \<in> set ys. 1 + y / 100 \<noteq> 0"
    and "1 + y / 100 \<noteq> 0" and "d \<in> {1, 5, 10}"
  shows "bond_price y d = Inr (100 / (1 + y / 100) ^ nat d) \<and>
         spec_duration ''1Y'' = 1 \<and> spec_duration ''5Y'' = 5 \<and> spec_duration ''10Y'' = 10 \<and>
         prices_df yields_df =
           Inr \<lparr>index = index yields_df,
                columns = map (\<lambda>(col, ys).
                                 (col, map (\<lambda>y. 100 / (1 + y / 100) ^ spec_duration col) ys))
                            (columns yields_df)\<rparr>"
proof -
  have "bond_price y d = Inr (100 / (1 + y / 100) ^ nat d)"
    using assms(4,5) by (auto simp: bond_price_def pow_def truediv_def)
  moreover have "spec_duration ''1Y'' = 1 \<and> spec_duration ''5Y'' = 5 \<and> spec_duration ''10Y'' = 10"
    by (simp add: spec_duration_def)
  moreover note prices_df_spec [OF assms(1-3)]
  ultimately show ?thesis by (simp add: spec_price_def)
qed

theorem bond_price_table_witness:
  "distinct (keys (columns \<lparr>index = [0::nat, 1], columns = [(''1Y'', [0, 100]), (''5Y'', [0, 0])]\<rparr>)) \<and>
   1 + (100::real) / 100 \<noteq> 0 \<and> (5::int) \<in> {1, 5, 10} \<and>
   bond_price 100 5 = Inr (25 / 8) \<and>
   prices_df \<lparr>index = [0::nat, 1], columns = [(''1Y'', [0, 100]), (''5Y'', [0, 0])]\<rparr> =
     Inr \<lparr>index = [0, 1], columns = [(''1Y'', [100, 50]), (''5Y'', [100, 100])]\<rparr>"
  using bond_price_table
    [of "\<lparr>index = [0::nat, 1], columns = [(''1Y'', [0, 100]), (''5Y'', [0, 0])]\<rparr>" 100 5]
  by (simp add: keys_def spec_duration_def)




section \<open>Properties of the simulation\<close>

subsection \<open>Tables with fewer than two rows\<close>

text \<open>
  C10.  A price table with zero or one row makes \<open>range(1, len(prices))\<close> empty: the
  loop body never runs and the function returns the empty list, whatever the weights and
  the cost rate.
\<close>

theorem simulate_short_table:
  "len prices < 2 \<Longrightarrow> simulate_bond_index prices weights transaction_cost = Inr []"
  by (simp add: simulate_bond_index_def initial_state_def)

theorem simulate_short_table_witness:
  "len \<lparr>index = [0::nat], columns = [(''1Y'', [100])]\<rparr> < 2 \<and>
   simulate_bond_index \<lparr>index = [0::nat], columns = [(''1Y'', [100])]\<rparr>
     [(''1Y'', 1)] (1 / 1000) = Inr []"
  using simulate_short_table
    [of "\<lparr>index = [0::nat], columns = [(''1Y'', [100])]\<rparr>" "[(''1Y'', 1)]" "1 / 1000"]
  by (simp add: len_def)

subsection \<open>The loop follows the contract\<close>

lemma dict_get_weight:
  "b \<in> set (keys weights) \<Longrightarrow> dict_get weights b = Inr (weight_of weights b)"
  by (auto simp: dict_get_def weight_of_def keys_def map_of_eq_None_iff split: option.splits)

lemma iloc_in_range: "i < len df \<Longrightarrow> \<exists>r. iloc df i = Inr r"
  by (simp add: iloc_def)

lemma row_get_defined:
  assumes "row_defined prices weights i" and "b \<in> set (keys weights)"
    and "iloc prices i = Inr r"
  shows "row_get r b = Inr (price_at prices i b)"
proof -
  have i: "i < len prices" using assms(1) by (simp add: row_defined_def)
  obtain c where c: "map_of (columns prices) b = Some c" "i < length c"
    using assms(1,2) by (auto simp: row_defined_def list_all_iff split: option.splits)
  have r: "r = (\<lambda>b. case map_of (columns prices) b of
                      None \<Rightarrow> None
                    | Some c \<Rightarrow> if i < length c then Some (c ! i) else None)"
    using i assms(3) by (simp add: iloc_def)
  show ?thesis using c by (simp add: r row_get_def price_at_def)
qed

lemma row_priced_nonzero:
  "row_priced prices weights i \<Longrightarrow> b \<in> set (keys weights) \<Longrightarrow> price_at prices i b \<noteq> 0"
  by (simp add: row_priced_def list_all_iff)

lemma row_priced_defined: "row_priced prices weights i \<Longrightarrow> row_defined prices weights i"
  by (simp add: row_priced_def)


lemma priced_row: "priced prices weights \<Longrightarrow> i < len prices \<Longrightarrow> row_priced prices weights i"
  by (simp add: priced_def list_all_iff)

lemma initial_purchase:
  assumes held: "held_as prices weights s i u" and i: "i - 1 < len prices"
    and prev: "iloc prices (i - 1) = Inr prev"
  shows "(if holdings s = []
        then dict_comp (\<lambda>bond.
               and_then (dict_get weights bond) (\<lambda>w.
               and_then (row_get prev bond) (\<lambda>p.
               truediv (value' s * w) p))) (keys weights)
        else Inr (holdings s)) = Inr (map (\<lambda>b. (b, u b)) (keys weights))"
proof (cases "holdings s = []")
  case True
  show ?thesis
  proof (cases "keys weights = []")
    case k: True
    then show ?thesis using True by (simp add: dict_comp_def)
  next
    case False
    then have h: "row_priced prices weights (i - 1)"
      "\<forall>b \<in> set (keys weights).
            u b = (value' s * weight_of weights b) / price_at prices (i - 1) b"
      using held True by (auto simp: held_as_def)
    have "dict_comp (\<lambda>bond.
               and_then (dict_get weights bond) (\<lambda>w.
               and_then (row_get prev bond) (\<lambda>p.
               truediv (value' s * w) p))) (keys weights) = Inr (map (\<lambda>b. (b, u b)) (keys weights))"
    proof (rule dict_comp_all)
      fix b assume b: "b \<in> set (keys weights)"
      have "row_get prev b = Inr (price_at prices (i - 1) b)"
        using row_get_defined [OF row_priced_defined [OF h(1)] b prev] .
      moreover have "price_at prices (i - 1) b \<noteq> 0"
        using row_priced_nonzero [OF h(1) b] .
      ultimately show "and_then (dict_get weights b) (\<lambda>w.
               and_then (row_get prev b) (\<lambda>p. truediv (value' s * w) p)) = Inr (u b)"
        using b h(2) by (simp add: dict_get_weight truediv_def)
    qed
    then show ?thesis using True by simp
  qed
next
  case False
  then show ?thesis using held by (simp add: held_as_def)
qed

lemma loop_body_priced:
  assumes i: "1 \<le> i" and cur: "row_priced prices weights i"
    and held: "held_as prices weights s i u"
  defines "v \<equiv> (\<Sum>b\<leftarrow>keys weights. u b * price_at prices i b)"
  defines "t \<equiv> (\<Sum>b\<leftarrow>keys weights.
                   \<bar>(v * weight_of weights b) / price_at prices i b - u b\<bar> * price_at prices i b)"
  shows "loop_body prices weights rate s i =
     Inr \<lparr>value' = v - t * rate,
          portfolio_values = portfolio_values s @ [v - t * rate],
          holdings = map (\<lambda>b. (b, (v * weight_of weights b) / price_at prices i b)) (keys weights),
          turnover = t,
          cost = t * rate\<rparr>"
proof -
  let ?ks = "keys weights"
  have il: "i < len prices" using cur by (simp add: row_priced_def row_defined_def)
  then have im: "i - 1 < len prices" by simp
  obtain prev where prev: "iloc prices (i - 1) = Inr prev"
    using iloc_in_range [OF im] by blast
  obtain curr where curr: "iloc prices i = Inr curr"
    using iloc_in_range [OF il] by blast
  have P1: "row_get curr b = Inr (price_at prices i b)" "price_at prices i b \<noteq> 0"
    if "b \<in> set ?ks" for b
    using row_get_defined [OF row_priced_defined [OF cur] that curr]
      row_priced_nonzero [OF cur that] by simp_all
  let ?held = "map (\<lambda>b. (b, u b)) ?ks"
  note h = initial_purchase [OF held im prev]
  have s1: "sum_gen (\<lambda>bond.
               and_then (dict_get ?held bond) (\<lambda>u.
               and_then (row_get curr bond) (\<lambda>p.
               Inr (u * p)))) (keys ?held) = Inr v"
    unfolding v_def keys_tabulate
    by (rule sum_gen_all) (simp add: dict_get_tabulate P1)
  let ?dv = "map (\<lambda>b. (b, v * weight_of weights b)) ?ks"
  have s2: "dict_comp (\<lambda>bond.
               and_then (dict_get weights bond) (\<lambda>w.
               Inr (v * w))) ?ks = Inr ?dv"
    by (rule dict_comp_all) (simp add: dict_get_weight)
  let ?nh = "map (\<lambda>b. (b, (v * weight_of weights b) / price_at prices i b)) ?ks"
  have s3: "dict_comp (\<lambda>bond.
               and_then (dict_get ?dv bond) (\<lambda>dv.
               and_then (row_get curr bond) (\<lambda>p.
               truediv dv p))) ?ks = Inr ?nh"
    by (rule dict_comp_all) (simp add: dict_get_tabulate P1 truediv_def)
  have s4: "sum_gen (\<lambda>bond.
               and_then (dict_get ?nh bond) (\<lambda>n.
               and_then (dict_get ?held bond) (\<lambda>u.
               and_then (row_get curr bond) (\<lambda>p.
               Inr (\<bar>n - u\<bar> * p))))) ?ks = Inr t"
    unfolding t_def
    by (rule sum_gen_all) (simp add: dict_get_tabulate P1)
  show ?thesis
    unfolding loop_body_def prev curr and_then.simps h s1 s2 s3 s4 Let_def by simp
qed

lemma state_after_Suc:
  "state_after prices weights rate (Suc k) =
     and_then (state_after prices weights rate k)
       (\<lambda>s. loop_body prices weights rate s (Suc k))"
proof -
  have "[1..<Suc (Suc k)] = [1..<Suc k] @ [Suc k]" by simp
  then show ?thesis
    unfolding state_after_def by (simp only: for_each_append for_each_single)
qed

lemma held_as_spec_state:
  assumes "row_priced prices weights k"
  shows "held_as prices weights (spec_state prices weights rate k) (Suc k)
           (spec_units prices weights k)"
proof (cases k)
  case 0
  then show ?thesis using assms
    by (simp add: held_as_def spec_state_def initial_state_def)
next
  case (Suc j)
  then show ?thesis by (simp add: held_as_def spec_state_def)
qed

lemma state_after_spec:
  assumes "\<And>i. i \<le> k \<Longrightarrow> row_priced prices weights i"
  shows "state_after prices weights rate k = Inr (spec_state prices weights rate k)"
  using assms
proof (induction k)
  case 0
  show ?case by (simp add: state_after_def spec_state_def)
next
  case (Suc k)
  have prev: "state_after prices weights rate k = Inr (spec_state prices weights rate k)"
    using Suc.prems by (intro Suc.IH) simp
  have rk: "row_priced prices weights k" and rs: "row_priced prices weights (Suc k)"
    using Suc.prems by simp_all
  note body = loop_body_priced [OF _ rs held_as_spec_state [OF rk], of rate rate]
  have pv: "portfolio_values (spec_state prices weights rate k) =
              map (spec_reported prices weights rate) [1..<Suc k]"
    by (simp add: spec_state_def initial_state_def)
  show ?case
    unfolding state_after_Suc prev and_then.simps
    by (simp add: body pv)
      (simp add: spec_state_def spec_reported_def spec_cost_def spec_turnover_def
        spec_desired_def spec_value_def mult.commute)
qed

lemma spec_units_replaced:
  "spec_units prices weights (Suc i) b = spec_desired prices weights (Suc i) b"
  by (simp add: spec_desired_def spec_value_def)

lemma simulate_as_state:
  "simulate_bond_index prices weights rate =
     and_then (state_after prices weights rate (len prices - 1)) (\<lambda>s. Inr (portfolio_values s))"
proof (cases "len prices")
  case 0
  then show ?thesis by (simp add: simulate_bond_index_def state_after_def)
next
  case (Suc n)
  then show ?thesis by (simp add: simulate_bond_index_def state_after_def)
qed

lemma portfolio_values_spec_state:
  "portfolio_values (spec_state prices weights rate k) =
     map (spec_reported prices weights rate) [1..<Suc k]"
  by (simp add: spec_state_def initial_state_def)

lemma simulate_spec:
  assumes "priced prices weights"
  shows "simulate_bond_index prices weights rate =
           Inr (map (spec_reported prices weights rate) [1..<len prices])"
proof (cases "len prices")
  case 0
  then show ?thesis by (simp add: simulate_bond_index_def initial_state_def)
next
  case (Suc n)
  have "state_after prices weights rate n = Inr (spec_state prices weights rate n)"
    using assms Suc by (intro state_after_spec priced_row) simp_all
  then show ?thesis
    using Suc by (simp add: simulate_as_state portfolio_values_spec_state)
qed



text \<open>
  C1.  On a price table with a column for every maturity of the weight mapping and no zero
  price, \<open>simulate_bond_index\<close> returns, for any weights and any cost rate, exactly the
  values of the specification's recurrence for the rows 1, ..., n-1: initial units
  \<open>(initial_capital * weight[b]) / price_0[b]\<close>; at row i the value
  \<open>\<Sum> units[b] * price_i[b]\<close>, the desired units \<open>(value * weight[b]) / price_i[b]\<close>, the cost
  \<open>rate * \<Sum> |desired_units[b] - units[b]| * price_i[b]\<close>, the reported value
  \<open>value - cost\<close>, and the desired units as the next units.  The result has n-1 entries.
  The specification's two-month example is the witness.
\<close>

theorem simulate_recurrence:
  assumes "priced prices weights"
  shows "simulate_bond_index prices weights rate =
           Inr (map (spec_reported prices weights rate) [1..<len prices]) \<and>
         length (map (spec_reported prices weights rate) [1..<len prices]) = len prices - 1"
  using simulate_spec [OF assms] by simp

theorem simulate_recurrence_witness:
  "priced two_month_prices half_third_fifth \<and> len two_month_prices = 2 \<and>
   simulate_bond_index two_month_prices half_third_fifth 0 =
     Inr [1000 * (5 / 10) * (110 / 100) + 1000 * (3 / 10) * (105 / 100)
            + 1000 * (2 / 10) * (95 / 100)]"
proof -
  have p: "priced two_month_prices half_third_fifth"
    by (simp add: priced_def row_priced_def row_defined_def price_at_def len_def keys_def
        two_month_prices_def half_third_fifth_def upt_1_2)
  have l: "len two_month_prices = 2"
    by (simp add: len_def two_month_prices_def)
  have "map (spec_reported two_month_prices half_third_fifth 0) [1..<len two_month_prices] =
      [1000 * (5 / 10) * (110 / 100) + 1000 * (3 / 10) * (105 / 100)
            + 1000 * (2 / 10) * (95 / 100)]"
    unfolding l upt_1_2
    by (simp add: spec_reported_def spec_value_def spec_cost_def keys_def weight_of_def
        price_at_def initial_investment_def two_month_prices_def half_third_fifth_def)
  then show ?thesis using simulate_recurrence [OF p, of 0] p l by simp
qed

subsection \<open>Units after a rebalance\<close>









subsection \<open>Unchanged prices\<close>





subsection \<open>Constant yields\<close>






subsection \<open>Zero and negative prices\<close>







section \<open>Properties of the benchmark index\<close>

lemma pct_from_numbers:
  assumes "length idx = length ps" and "p \<noteq> 0" and "0 \<notin> set ps"
  shows "pct_from (Some p) (zip idx (map Some ps)) = Inr (zip idx (map Some (rets p ps)))"
  using assms
proof (induction ps arbitrary: idx p)
  case Nil
  then show ?case by simp
next
  case (Cons c cs)
  then obtain l ls where idx: "idx = l # ls" by (cases idx) auto
  have "pct_from (Some c) (zip ls (map Some cs)) = Inr (zip ls (map Some (rets c cs)))"
    using Cons.prems idx by (intro Cons.IH) auto
  then show ?case using Cons.prems(2) idx by (simp add: truediv_def)
qed

lemma pct_change_numbers:
  assumes "length idx = length ps" and "0 \<notin> set ps"
  shows "pct_change (zip idx (map Some ps)) =
     Inr (case (idx, ps) of
            (l # ls, p # cs) \<Rightarrow> (l, None) # zip ls (map Some (rets p cs))
          | _ \<Rightarrow> [])"
proof (cases ps)
  case Nil
  then show ?thesis using assms(1) by (simp add: pct_change_def)
next
  case (Cons p cs)
  then obtain l ls where idx: "idx = l # ls" using assms(1) by (cases idx) auto
  have "pct_from (Some p) (zip ls (map Some cs)) = Inr (zip ls (map Some (rets p cs)))"
    using assms Cons idx by (intro pct_from_numbers) auto
  then show ?thesis using Cons idx by (simp add: pct_change_def)
qed

lemma dropna_numbers: "dropna (zip ls (map Some xs)) = zip ls (map Some xs)"
  unfolding dropna_def by (rule filter_True) (auto simp: set_zip)

lemma radd_numbers:
  "radd c (zip ls (map Some xs)) = zip ls (map Some (map (\<lambda>x. c + x) xs))"
  by (induction ls xs rule: list_induct2') (simp_all add: radd_def)

lemma mul_numbers:
  "mul (zip ls (map Some xs)) c = zip ls (map Some (map (\<lambda>x. x * c) xs))"
  by (induction ls xs rule: list_induct2') (simp_all add: mul_def)

lemma cumprod_from_numbers:
  "cumprod_from acc (zip ls (map Some xs)) = zip ls (map Some (scan acc xs))"
  by (induction ls xs arbitrary: acc rule: list_induct2') simp_all

lemma filter_own_label:
  assumes "distinct (map fst s)" and "x \<in> set s"
  shows "filter (\<lambda>c. fst c = fst x) s = [x]"
  using assms
proof (induction s)
  case Nil
  then show ?case by simp
next
  case (Cons y s)
  show ?case
  proof (cases "x = y")
    case True
    have "fst y \<notin> fst ` set s" using Cons.prems(1) by simp
    then have "fst z \<noteq> fst y" if "z \<in> set s" for z
      using that by (metis imageI)
    then have "filter (\<lambda>c. fst c = fst y) s = []"
      by (simp add: filter_empty_conv)
    then show ?thesis using True by simp
  next
    case False
    then have x: "x \<in> set s" using Cons.prems(2) by simp
    moreover have "fst y \<notin> fst ` set s" using Cons.prems(1) by simp
    ultimately have "fst y \<noteq> fst x" by (metis imageI)
    then show ?thesis using Cons.IH [OF _ x] Cons.prems(1) by simp
  qed
qed

lemma loc_own_labels:
  assumes "distinct (map fst s)"
  shows "loc s (map fst s) = Inr s"
proof -
  have "traverse (loc_label s) (map fst t) = Inr (map (\<lambda>x. [x]) t)" if "set t \<subseteq> set s" for t
    using that
  proof (induction t)
    case Nil
    show ?case by simp
  next
    case (Cons x t)
    have "loc_label s (fst x) = Inr [x]"
      using filter_own_label [OF assms, of x] Cons.prems by (simp add: loc_label_def)
    then show ?case using Cons by simp
  qed
  then have "traverse (loc_label s) (map fst s) = Inr (map (\<lambda>x. [x]) s)" by simp
  then show ?thesis by (simp add: loc_def)
qed

lemma rets_nth:
  "rets p cs = map (\<lambda>j. (p # cs) ! j / (p # cs) ! (j - 1) - 1) [1..<Suc (length cs)]"
proof (induction cs arbitrary: p)
  case Nil
  show ?case by simp
next
  case (Cons c cs)
  have "[1..<Suc (length (c # cs))] = 1 # map Suc [1..<Suc (length cs)]"
    by (simp add: upt_conv_Cons map_Suc_upt del: upt_Suc)
  then show ?case by (simp add: Cons.IH del: upt_Suc)
qed

lemma scan_take:
  "scan acc xs = map (\<lambda>k. acc * prod_list (take (Suc k) xs)) [0..<length xs]"
proof (induction xs arbitrary: acc)
  case Nil
  show ?case by simp
next
  case (Cons x xs)
  have "[0..<length (x # xs)] = 0 # map Suc [0..<length xs]"
    by (simp add: upt_conv_Cons map_Suc_upt del: upt_Suc)
  then show ?case by (simp add: Cons.IH mult.assoc del: upt_Suc)
qed

lemma rets_spec:
  "rets p cs = map (spec_return (p # cs)) [1..<Suc (length cs)]"
  unfolding rets_nth spec_return_def ..

lemma benchmark_values:
  "map (\<lambda>x. x * initial_investment) (scan 1 (map (\<lambda>x. 1 + x) (rets p cs))) =
   map (spec_benchmark (p # cs)) [1..<Suc (length cs)]"
proof -
  let ?xs = "map (\<lambda>j. 1 + spec_return (p # cs) j) [1..<Suc (length cs)]"
  have xs: "map (\<lambda>x. 1 + x) (rets p cs) = ?xs"
    by (simp add: rets_spec del: upt_Suc)
  have tk: "take (Suc k) ?xs = map (\<lambda>j. 1 + spec_return (p # cs) j) [1..<Suc (Suc k)]"
    if "k < length cs" for k
  proof -
    have "take (Suc k) [1..<Suc (length cs)] = [1..<1 + Suc k]"
      using that by (intro take_upt) simp
    then show ?thesis by (simp add: take_map del: upt_Suc)
  qed
  have "length ?xs = length cs" by (simp del: upt_Suc)
  then have "map (\<lambda>x. x * initial_investment) (scan 1 ?xs) =
        map (\<lambda>k. prod_list (take (Suc k) ?xs) * initial_investment) [0..<length cs]"
    unfolding scan_take by (simp del: upt_Suc take_Suc_Cons)
  also have "\<dots> = map (\<lambda>k. spec_benchmark (p # cs) (Suc k)) [0..<length cs]"
  proof (rule map_cong [OF refl])
    fix k assume "k \<in> set [0..<length cs]"
    then have k: "k < length cs" by simp
    show "prod_list (take (Suc k) ?xs) * initial_investment = spec_benchmark (p # cs) (Suc k)"
      unfolding tk [OF k] spec_benchmark_def by (simp only: mult.commute)
  qed
  also have "\<dots> = map (spec_benchmark (p # cs)) (map Suc [0..<length cs])"
    by simp
  also have "map Suc [0..<length cs] = [1..<Suc (length cs)]"
    by (simp add: map_Suc_upt del: upt_Suc)
  finally show ?thesis using xs by simp
qed

lemma sp500_index_numbers:
  assumes "length idx = length ps" and "distinct idx" and "0 \<notin> set ps"
    and "index prices = idx"
  shows "sp500_index (zip idx (map Some ps)) prices =
     Inr (zip (drop 1 idx) (map (\<lambda>k. Some (spec_benchmark ps k)) [1..<length ps]))"
proof (cases ps)
  case Nil
  then show ?thesis
    using assms by (simp add: sp500_index_def sp500_returns_def pct_change_def dropna_def
        radd_def cumprod_def mul_def loc_def)
next
  case (Cons p cs)
  then obtain l ls where idx: "idx = l # ls" using assms(1) by (cases idx) auto
  have len: "length ls = length cs" using assms(1) Cons idx by simp
  have "pct_change (zip idx (map Some ps)) = Inr ((l, None) # zip ls (map Some (rets p cs)))"
    using pct_change_numbers [OF assms(1,3)] Cons idx by simp
  moreover have "dropna ((l, None) # zip ls (map Some (rets p cs))) =
      zip ls (map Some (rets p cs))"
    using dropna_numbers [of ls "rets p cs"] by (simp add: dropna_def)
  ultimately have r: "sp500_returns (zip idx (map Some ps)) =
      Inr (zip ls (map Some (rets p cs)))"
    by (simp add: sp500_returns_def)
  let ?vals = "map (\<lambda>x. x * initial_investment) (scan 1 (map (\<lambda>x. 1 + x) (rets p cs)))"
  have v: "mul (cumprod (radd 1 (zip ls (map Some (rets p cs))))) initial_investment =
      zip ls (map Some ?vals)"
    unfolding cumprod_def by (simp only: radd_numbers cumprod_from_numbers mul_numbers)
  have lv: "length ?vals = length ls"
    unfolding benchmark_values using len by (simp del: upt_Suc)
  then have labels: "map fst (zip ls (map Some ?vals)) = ls" by simp
  have "distinct ls" using assms(2) idx by simp
  then have own: "loc (zip ls (map Some ?vals)) ls = Inr (zip ls (map Some ?vals))"
    using loc_own_labels [of "zip ls (map Some ?vals)"] labels by simp
  have d: "drop 1 (index prices) = ls" using assms(4) idx by simp
  have "sp500_index (zip idx (map Some ps)) prices = Inr (zip ls (map Some ?vals))"
    unfolding sp500_index_def r and_then.simps v d by (fact own)
  then show ?thesis
    unfolding benchmark_values using Cons idx by (simp add: comp_def del: upt_Suc)
qed

text \<open>
  C7.  For a benchmark series of n \<ge> 2 nonzero prices, labelled by the distinct dates of
  the price table (as the alignment step leaves it), the benchmark index has exactly n-1
  entries, labelled by the dates after the first; its k-th value is the initial capital
  times the product over j = 1, ..., k of \<open>1 + r_j\<close> with \<open>r_j = p_j / p_(j-1) - 1\<close>, and
  its first value is \<open>initial_capital * (1 + r_1)\<close>.
\<close>

theorem benchmark_cumulative_returns:
  assumes "sp500 = zip (index prices) (map Some ps)"
    and "length (index prices) = length ps" and "distinct (index prices)"
    and "0 \<notin> set ps" and "2 \<le> length ps"
  shows "\<exists>out. sp500_index sp500 prices = Inr out \<and>
           length out = length ps - 1 \<and>
           map fst out = drop 1 (index prices) \<and>
           map snd out = map (\<lambda>k. Some (spec_benchmark ps k)) [1..<length ps] \<and>
           snd (out ! 0) = Some (initial_investment * (1 + spec_return ps 1))"
proof -
  let ?out = "zip (drop 1 (index prices)) (map (\<lambda>k. Some (spec_benchmark ps k)) [1..<length ps])"
  have run: "sp500_index sp500 prices = Inr ?out"
    unfolding assms(1) using assms(2-4) by (intro sp500_index_numbers) simp_all
  have n: "length (drop 1 (index prices)) = length ps - 1"
    "length (map (\<lambda>k. Some (spec_benchmark ps k)) [1..<length ps]) = length ps - 1"
    using assms(2) by simp_all
  have "[1..<length ps] ! 0 = 1" using assms(5) by simp
  then have first: "snd (?out ! 0) = Some (initial_investment * (1 + spec_return ps 1))"
    using n assms(5) by (simp add: spec_benchmark_def)
  have "length ?out = length ps - 1" using n by simp
  moreover have "map fst ?out = drop 1 (index prices)" using n by simp
  moreover have "map snd ?out = map (\<lambda>k. Some (spec_benchmark ps k)) [1..<length ps]"
    using n by simp
  ultimately show ?thesis using run first by blast
qed

theorem benchmark_cumulative_returns_witness:
  "length (index \<lparr>index = [0::nat, 1, 2], columns = ([] :: real list dict)\<rparr>)
     = length [100 :: real, 110, 121] \<and>
   distinct (index \<lparr>index = [0::nat, 1, 2], columns = ([] :: real list dict)\<rparr>) \<and>
   (0::real) \<notin> set [100, 110, 121] \<and> 2 \<le> length [100 :: real, 110, 121] \<and>
   (\<exists>out. sp500_index [(0, Some 100), (1, Some 110), (2, Some 121)]
             \<lparr>index = [0::nat, 1, 2], columns = []\<rparr> = Inr out \<and>
          length out = 2 \<and> map fst out = [1, 2] \<and>
          map snd out = [Some 1100, Some 1210] \<and>
          snd (out ! 0) = Some (1000 * (1 + (110 / 100 - 1))))"
proof -
  have v: "map (\<lambda>k. Some (spec_benchmark [100, 110, 121] k)) [1..<length [100 :: real, 110, 121]]
      = [Some 1100, Some 1210]"
    by (simp add: spec_benchmark_def spec_return_def initial_investment_def upt_1_3)
  have f: "Some (initial_investment * (1 + spec_return [100, 110, 121] 1))
      = Some (1000 * (1 + (110 / 100 - 1)))"
    by (simp add: spec_return_def initial_investment_def)
  show ?thesis
    using benchmark_cumulative_returns
      [of "[(0, Some 100), (1, Some 110), (2, Some 121)]"
          "\<lparr>index = [0::nat, 1, 2], columns = []\<rparr>" "[100, 110, 121]"]
    unfolding v f by (simp add: numeral_2_eq_2)
qed

section \<open>Properties of resampling and alignment\<close>

lemma valid_empty_iff: "valid vs = [] \<longleftrightarrow> (\<forall>v \<in> set vs. v = None)"
  by (induction vs rule: valid.induct) simp_all

lemma in_month_some_iff:
  "(\<exists>v \<in> set (in_month ds vs m). v \<noteq> None) \<longleftrightarrow> spec_observed ds vs m"
proof
  assume "\<exists>v \<in> set (in_month ds vs m). v \<noteq> None"
  then obtain d v where dv: "(d, v) \<in> set (zip ds vs)" "month_of d = m" "v \<noteq> None"
    by (auto simp: in_month_def)
  then obtain i where "i < length ds" "i < length vs" "ds ! i = d" "vs ! i = v"
    by (auto simp: set_zip)
  then show "spec_observed ds vs m" using dv by (auto simp: spec_observed_def)
next
  assume "spec_observed ds vs m"
  then obtain i where i: "i < length ds" "i < length vs" "month_of (ds ! i) = m" "vs ! i \<noteq> None"
    by (auto simp: spec_observed_def)
  then have "(ds ! i, vs ! i) \<in> set (zip ds vs)" by (auto simp: set_zip)
  then have "vs ! i \<in> set (in_month ds vs m)"
    using i(3) by (force simp: in_month_def)
  then show "\<exists>v \<in> set (in_month ds vs m). v \<noteq> None" using i(4) by blast
qed

lemma mean_some_iff: "(\<exists>y. mean (in_month ds vs m) = Some y) \<longleftrightarrow> spec_observed ds vs m"
  using in_month_some_iff [of ds vs m] by (auto simp: mean_def valid_empty_iff)

lemma observed_code:
  "spec_observed ds vs m \<longleftrightarrow> list_ex (\<lambda>v. v \<noteq> None) (in_month ds vs m)"
  using in_month_some_iff [of ds vs m] by (simp add: list_ex_iff)

lemma observed_in_bins:
  assumes "spec_observed ds vs m"
  shows "m \<in> set (month_bins ds)"
proof -
  obtain i where i: "i < length ds" "month_of (ds ! i) = m"
    using assms by (auto simp: spec_observed_def)
  then have ne: "ds \<noteq> []" by auto
  have "m \<in> set (map month_of ds)" using i by force
  then have "Min (set (map month_of ds)) \<le> m" "m \<le> Max (set (map month_of ds))"
    by simp_all
  then show ?thesis using ne by (auto simp: month_bins_def)
qed

lemma filter_by_position:
  "map ((!) xs) (filter (\<lambda>i. P (xs ! i)) [0..<length xs]) = filter P xs"
proof -
  have "filter P (map ((!) xs) [0..<length xs]) =
        map ((!) xs) (filter (P \<circ> (!) xs) [0..<length xs])"
    by (rule filter_map)
  then show ?thesis by (simp add: map_nth comp_def)
qed

lemma resampled_yields_index:
  "index (resampled_yields yields_df) = kept_months yields_df"
proof -
  let ?ds = "index yields_df" and ?bins = "month_bins (index yields_df)"
  let ?P = "\<lambda>m. \<forall>cv \<in> set (columns yields_df). spec_observed ?ds (snd cv) m"
  have keep: "list_all (\<lambda>cv. snd cv ! i \<noteq> None) (columns (resample_mean yields_df)) \<longleftrightarrow>
              ?P (?bins ! i)" if "i < length ?bins" for i
    using that by (auto simp: resample_mean_def list_all_iff mean_some_iff)
  have feq: "filter (\<lambda>i. list_all (\<lambda>cv. snd cv ! i \<noteq> None) (columns (resample_mean yields_df)))
          [0..<length ?bins] = filter (\<lambda>i. ?P (?bins ! i)) [0..<length ?bins]"
  proof (rule filter_cong [OF refl])
    fix i assume "i \<in> set [0..<length ?bins]"
    then have "i < length ?bins" by simp
    then show "list_all (\<lambda>cv. snd cv ! i \<noteq> None) (columns (resample_mean yields_df)) \<longleftrightarrow>
              ?P (?bins ! i)" by (rule keep)
  qed
  have i1: "index (resample_mean yields_df) = ?bins" by (simp add: resample_mean_def)
  have "index (resampled_yields yields_df) =
      map (\<lambda>i. ?bins ! i)
        (filter (\<lambda>i. list_all (\<lambda>cv. snd cv ! i \<noteq> None) (columns (resample_mean yields_df)))
           [0..<length ?bins])"
    unfolding resampled_yields_def dropna_rows_def Let_def len_def i1 by simp
  also have "\<dots> = map (\<lambda>i. ?bins ! i) (filter (\<lambda>i. ?P (?bins ! i)) [0..<length ?bins])"
    by (simp only: feq)
  also have "\<dots> = filter ?P ?bins" by (rule filter_by_position)
  finally show ?thesis by (simp add: kept_months_def)
qed

lemma resampled_yields_columns:
  "columns (resampled_yields yields_df) =
     map (\<lambda>cv. (fst cv, map (\<lambda>m. mean (in_month (index yields_df) (snd cv) m))
                         (kept_months yields_df)))
       (columns yields_df)"
proof -
  let ?ds = "index yields_df" and ?bins = "month_bins (index yields_df)"
  let ?keep = "filter (\<lambda>i. list_all (\<lambda>cv. snd cv ! i \<noteq> None) (columns (resample_mean yields_df)))
                 [0..<length ?bins]"
  have i1: "index (resample_mean yields_df) = ?bins" by (simp add: resample_mean_def)
  have months: "kept_months yields_df = map (\<lambda>i. ?bins ! i) ?keep"
    using resampled_yields_index [of yields_df]
    unfolding resampled_yields_def dropna_rows_def Let_def len_def i1 by simp
  have cell: "map (\<lambda>i. map f ?bins ! i) ?keep = map f (map (\<lambda>i. ?bins ! i) ?keep)" for f :: "nat \<Rightarrow> real option"
    by (simp add: comp_def)
  have "columns (resampled_yields yields_df) =
      map (\<lambda>cv. (fst cv, map (\<lambda>i. snd cv ! i) ?keep)) (columns (resample_mean yields_df))"
    unfolding resampled_yields_def dropna_rows_def Let_def len_def i1 by simp
  also have "\<dots> = map (\<lambda>cv. (fst cv,
                 map (\<lambda>i. map (\<lambda>m. mean (in_month ?ds (snd cv) m)) ?bins ! i) ?keep))
               (columns yields_df)"
    by (simp add: resample_mean_def comp_def)
  also have "\<dots> = map (\<lambda>cv. (fst cv, map (\<lambda>m. mean (in_month ?ds (snd cv) m))
                         (kept_months yields_df))) (columns yields_df)"
    unfolding months cell ..
  finally show ?thesis .
qed

lemma kept_months_common:
  assumes "columns yields_df \<noteq> []"
  shows "set (kept_months yields_df) = spec_common_months yields_df"
proof -
  obtain cv where cv: "cv \<in> set (columns yields_df)"
    using assms by (cases "columns yields_df") auto
  have "m \<in> set (month_bins (index yields_df))" if "m \<in> spec_common_months yields_df" for m
    using that cv observed_in_bins [of "index yields_df" "snd cv" m]
    by (auto simp: spec_common_months_def)
  then show ?thesis by (auto simp: kept_months_def spec_common_months_def)
qed

lemma kept_months_distinct: "distinct (kept_months yields_df)"
  by (simp add: kept_months_def month_bins_def)

lemma resampled_yields_no_missing:
  assumes "cv \<in> set (columns (resampled_yields yields_df))"
  shows "None \<notin> set (snd cv) \<and> length (snd cv) = length (index (resampled_yields yields_df))"
proof -
  obtain c where c: "c \<in> set (columns yields_df)"
    "snd cv = map (\<lambda>m. mean (in_month (index yields_df) (snd c) m)) (kept_months yields_df)"
    using assms unfolding resampled_yields_columns by auto
  have "\<exists>y. mean (in_month (index yields_df) (snd c) m) = Some y"
    if "m \<in> set (kept_months yields_df)" for m
    using that c(1) unfolding mean_some_iff by (simp add: kept_months_def)
  then have "None \<notin> set (snd cv)" unfolding c(2) by force
  then show ?thesis by (simp add: c(2) resampled_yields_index)
qed

lemma resample_last_labels: "map fst (resample_last s) = month_bins (map fst s)"
  by (simp add: resample_last_def comp_def)

lemma loc_label_tabulated:
  assumes "distinct ms" and "m \<in> set ms"
  shows "loc_label (map (\<lambda>m. (m, g m)) ms) m = Inr [(m, g m)]"
proof -
  have "distinct (map fst (map (\<lambda>m. (m, g m)) ms))" using assms(1) by (simp add: comp_def)
  moreover have "(m, g m) \<in> set (map (\<lambda>m. (m, g m)) ms)" using assms(2) by simp
  ultimately have "filter (\<lambda>c. fst c = fst (m, g m)) (map (\<lambda>m. (m, g m)) ms) = [(m, g m)]"
    by (rule filter_own_label)
  then show ?thesis by (simp add: loc_label_def)
qed

lemma loc_tabulated:
  assumes "distinct ms" and "set ls \<subseteq> set ms"
  shows "loc (map (\<lambda>m. (m, g m)) ms) ls = Inr (map (\<lambda>m. (m, g m)) ls)"
proof -
  have "traverse (loc_label (map (\<lambda>m. (m, g m)) ms)) ls = Inr (map (\<lambda>m. [(m, g m)]) ls)"
    using assms by (intro traverse_all loc_label_tabulated) auto
  then show ?thesis by (simp add: loc_def comp_def)
qed

lemma loc_missing:
  assumes "l \<in> set ls" and "l \<notin> set (map fst s)"
  shows "loc s ls = Inl KeyError"
proof -
  have "filter (\<lambda>c. fst c = l) s = []"
    using assms(2) by (auto simp: filter_empty_conv)
  then have "loc_label s l = Inl KeyError" by (simp add: loc_label_def)
  moreover have "loc_label s y = Inl KeyError \<or> (\<exists>z. loc_label s y = Inr z)" for y
    by (simp add: loc_label_def split: list.splits)
  ultimately have "traverse (loc_label s) ls = Inl KeyError"
    using assms(1) by (intro traverse_fails [of l]) simp_all
  then show ?thesis by (simp add: loc_def)
qed

lemma month_bins_distinct: "distinct (month_bins ds)"
  by (simp add: month_bins_def)

lemma aligned_sp500_cases:
  "aligned_sp500 sp500 yields_df =
     (if set (kept_months yields_df) \<subseteq> set (month_bins (map fst sp500))
      then Inr (map (\<lambda>m. (m, last_valid (in_month (map fst sp500) (map snd sp500) m)))
                 (kept_months yields_df))
      else Inl KeyError)"
proof (cases "set (kept_months yields_df) \<subseteq> set (month_bins (map fst sp500))")
  case True
  then show ?thesis
    unfolding aligned_sp500_def resampled_yields_index resample_last_def
    by (simp add: loc_tabulated [OF month_bins_distinct])
next
  case False
  then obtain l where "l \<in> set (kept_months yields_df)"
    "l \<notin> set (map fst (resample_last sp500))"
    unfolding resample_last_labels by blast
  then have "loc (resample_last sp500) (kept_months yields_df) = Inl KeyError"
    by (rule loc_missing)
  then show ?thesis using False by (simp add: aligned_sp500_def resampled_yields_index)
qed

lemma misaligned_bins: "month_bins (index misaligned_yields) = [0, 1, 2]"
  by (simp add: month_bins_def misaligned_yields_def month_of_def upt_1_2)

lemma misaligned_months: "index (resampled_yields misaligned_yields) = [0, 2]"
  unfolding resampled_yields_index kept_months_def misaligned_bins
  by (simp add: observed_code in_month_def misaligned_yields_def month_of_def)

text \<open>
  C8, as amended.  For a yield table with at least one series, the resampled table contains
  exactly the months in which every series has at least one observation; each cell is the
  mean of the month's observations of its series, and no cell is missing.  If every such
  month lies between the first and the last month in which the benchmark has a row, the
  aligned benchmark is labelled by exactly those months, each with the month's last
  benchmark observation; otherwise the alignment raises \<open>KeyError\<close>.
\<close>

theorem monthly_alignment:
  assumes "columns yields_df \<noteq> []"
  shows "set (index (resampled_yields yields_df)) = spec_common_months yields_df \<and>
         distinct (index (resampled_yields yields_df)) \<and>
         columns (resampled_yields yields_df) =
           map (\<lambda>cv. (fst cv, map (\<lambda>m. mean (in_month (index yields_df) (snd cv) m))
                               (index (resampled_yields yields_df))))
             (columns yields_df) \<and>
         (\<forall>cv \<in> set (columns (resampled_yields yields_df)).
            None \<notin> set (snd cv) \<and>
            length (snd cv) = length (index (resampled_yields yields_df))) \<and>
         aligned_sp500 sp500 yields_df =
           (if spec_common_months yields_df \<subseteq> set (month_bins (map fst sp500))
            then Inr (map (\<lambda>m. (m, last_valid (in_month (map fst sp500) (map snd sp500) m)))
                       (index (resampled_yields yields_df)))
            else Inl KeyError)"
proof -
  have "set (index (resampled_yields yields_df)) = spec_common_months yields_df"
    unfolding resampled_yields_index using assms by (rule kept_months_common)
  moreover have "distinct (index (resampled_yields yields_df))"
    unfolding resampled_yields_index by (rule kept_months_distinct)
  moreover have "columns (resampled_yields yields_df) =
           map (\<lambda>cv. (fst cv, map (\<lambda>m. mean (in_month (index yields_df) (snd cv) m))
                               (index (resampled_yields yields_df))))
             (columns yields_df)"
    unfolding resampled_yields_index by (rule resampled_yields_columns)
  moreover have "\<forall>cv \<in> set (columns (resampled_yields yields_df)).
            None \<notin> set (snd cv) \<and>
            length (snd cv) = length (index (resampled_yields yields_df))"
    using resampled_yields_no_missing by blast
  moreover have "aligned_sp500 sp500 yields_df =
           (if spec_common_months yields_df \<subseteq> set (month_bins (map fst sp500))
            then Inr (map (\<lambda>m. (m, last_valid (in_month (map fst sp500) (map snd sp500) m)))
                       (index (resampled_yields yields_df)))
            else Inl KeyError)"
    unfolding resampled_yields_index kept_months_common [OF assms, symmetric]
    by (rule aligned_sp500_cases)
  ultimately show ?thesis by blast
qed

theorem monthly_alignment_witness:
  "columns misaligned_yields \<noteq> [] \<and>
   index (resampled_yields misaligned_yields) = [0, 2] \<and>
   spec_common_months misaligned_yields = {0, 2} \<and>
   columns (resampled_yields misaligned_yields) =
     [(''1Y'', [Some 1, Some 3]), (''5Y'', [Some 2, Some 2])] \<and>
   aligned_sp500 daily_sp500 misaligned_yields = Inr [(0, Some 101), (2, Some 103)]"
proof -
  have c: "columns misaligned_yields \<noteq> []" by (simp add: misaligned_yields_def)
  have b: "month_bins (map fst daily_sp500) = [0, 1, 2]"
    by (simp add: month_bins_def daily_sp500_def month_of_def upt_1_2)
  note t = monthly_alignment [OF c, of daily_sp500]
  have m: "spec_common_months misaligned_yields = {0, 2}"
    using t misaligned_months by auto
  have cols: "columns (resampled_yields misaligned_yields) =
     [(''1Y'', [Some 1, Some 3]), (''5Y'', [Some 2, Some 2])]"
    using t unfolding misaligned_months
    by (simp add: misaligned_yields_def mean_def in_month_def month_of_def)
  have al: "aligned_sp500 daily_sp500 misaligned_yields = Inr [(0, Some 101), (2, Some 103)]"
    using t unfolding m b misaligned_months
    by (simp add: daily_sp500_def last_valid_def in_month_def month_of_def)
  show ?thesis using c misaligned_months m cols al by simp
qed

text \<open>
  C8 as stated fails when the benchmark does not span the months of the yield table: the
  yields keep the months 0 and 2, the benchmark's observations start in month 2, and the
  alignment raises \<open>KeyError\<close> on month 0 instead of restricting the benchmark.
\<close>

theorem benchmark_starts_late_counterexample:
  "index (resampled_yields misaligned_yields) = [0, 2] \<and>
   resample_last late_sp500 = [(2, Some 103)] \<and>
   aligned_sp500 late_sp500 misaligned_yields = Inl KeyError"
proof -
  have r: "resample_last late_sp500 = [(2, Some 103)]"
    by (simp add: resample_last_def month_bins_def late_sp500_def month_of_def in_month_def
        last_valid_def)
  have "aligned_sp500 late_sp500 misaligned_yields = Inl KeyError"
    unfolding aligned_sp500_def misaligned_months r
    by (simp add: loc_def loc_label_def)
  then show ?thesis using misaligned_months r by simp
qed

end
